theory Spec2Isabelle
  imports Complex_Main "HOL-Library.Log_Nat" "HOL-Library.Multiset"
begin

section \<open>Binary64 arithmetic\<close>

text \<open>
  Python's \<^verbatim>\<open>float\<close> is IEEE 754 binary64. A finite float is modelled by the rational
  number it denotes; every arithmetic operation computes the exact rational result and
  rounds it to the nearest representable value, ties to even (\<open>fl\<close>). Gradual
  underflow is modelled (the quantum never drops below \<open>2 powi -1074\<close>); the upper end
  of the exponent range is not, so the model describes runs in which no intermediate
  value reaches \<open>2 ^ 1024\<close>. Infinities and NaN are outside the model.
\<close>

definition ilog2 :: "rat \<Rightarrow> int" where
  \<comment> \<open>the binary exponent of a positive rational: \<open>2 powi ilog2 x \<le> x < 2 powi (ilog2 x + 1)\<close>\<close>
  "ilog2 x = (if 1 \<le> x then bitlen \<lfloor>x\<rfloor> - 1 else - bitlen (\<lceil>1 / x\<rceil> - 1))"

definition quantum :: "rat \<Rightarrow> rat" where
  \<comment> \<open>the spacing of binary64 values around \<open>x\<close>: 53 significant bits, least exponent -1022\<close>
  "quantum x = 2 powi (max (ilog2 \<bar>x\<bar>) (- 1022) - 52)"

definition round_half_even :: "rat \<Rightarrow> int" where
  "round_half_even z =
     (let f = \<lfloor>z\<rfloor>; r = z - of_int f
      in if r < 1 / 2 then f else if 1 / 2 < r then f + 1 else if even f then f else f + 1)"

definition fl :: "rat \<Rightarrow> rat" where
  "fl x = (if x = 0 then 0 else of_int (round_half_even (x / quantum x)) * quantum x)"

definition py_int :: "rat \<Rightarrow> int" where
  \<comment> \<open>\<^verbatim>\<open>int(x)\<close> on a float: truncation towards zero\<close>
  "py_int x = (if 0 \<le> x then \<lfloor>x\<rfloor> else - \<lfloor>- x\<rfloor>)"

definition py_round1 :: "rat \<Rightarrow> rat" where
  \<comment> \<open>\<^verbatim>\<open>round(x, 1)\<close>: the exact value rounded half-even to one decimal, read back as a float\<close>
  "py_round1 x = fl (of_int (round_half_even (x * 10)) / 10)"

definition fadd :: "rat \<Rightarrow> rat \<Rightarrow> rat" where
  "fadd a b = fl (a + b)"

definition fmul :: "rat \<Rightarrow> rat \<Rightarrow> rat" where
  "fmul a b = fl (a * b)"

definition fdiv :: "rat \<Rightarrow> rat \<Rightarrow> rat" where
  "fdiv a b = fl (a / b)"

definition py_float :: "int \<Rightarrow> rat" where
  \<comment> \<open>the conversion of an \<^verbatim>\<open>int\<close> operand in mixed arithmetic\<close>
  "py_float i = fl (of_int i)"

section \<open>The data model (pattern\_detector.py)\<close>

datatype PatternType =
    SILENT_FALLBACK
  | WARNING_SUPPRESSION
  | ASSUMPTION_BYPASS
  | DUPLICATE_CODE
  | PERFORMANCE_DEGRADATION
  | SECURITY_SHORTCUT
  | ERROR_MASKING
  | TEST_AVOIDANCE

datatype Severity = CRITICAL | WARNING | INFO

record Detection =
  pattern_type :: PatternType
  severity :: Severity
  line_number :: nat
  code_snippet :: string
  description :: string
  impact :: string
  recommendation :: string
  confidence :: rat

section \<open>The impact assessor (impact\_assessor.py)\<close>

record ImpactScore =
  total_score :: int
  performance_cost :: int
  security_risk :: int
  maintainability_debt :: int
  estimated_debug_hours :: rat
  risk_level :: string

record weights =
  performance :: int
  security :: int
  maintainability :: int
  debug_hours :: rat

definition PATTERN_WEIGHTS :: "PatternType \<rightharpoonup> weights" where
  "PATTERN_WEIGHTS = [
     SILENT_FALLBACK \<mapsto>
       \<lparr>performance = 10, security = 30, maintainability = 50, debug_hours = 8\<rparr>,
     WARNING_SUPPRESSION \<mapsto>
       \<lparr>performance = 5, security = 20, maintainability = 40, debug_hours = 4\<rparr>,
     ASSUMPTION_BYPASS \<mapsto>
       \<lparr>performance = 10, security = 40, maintainability = 30, debug_hours = 6\<rparr>,
     DUPLICATE_CODE \<mapsto>
       \<lparr>performance = 15, security = 10, maintainability = 60, debug_hours = 12\<rparr>,
     PERFORMANCE_DEGRADATION \<mapsto>
       \<lparr>performance = 70, security = 5, maintainability = 20, debug_hours = 16\<rparr>,
     SECURITY_SHORTCUT \<mapsto>
       \<lparr>performance = 5, security = 95, maintainability = 30, debug_hours = 24\<rparr>,
     ERROR_MASKING \<mapsto>
       \<lparr>performance = 10, security = 15, maintainability = 45, debug_hours = 10\<rparr>,
     TEST_AVOIDANCE \<mapsto>
       \<lparr>performance = 5, security = 10, maintainability = 50, debug_hours = 20\<rparr>]"

definition default_weights :: weights where
  \<comment> \<open>the second argument of \<^verbatim>\<open>PATTERN_WEIGHTS.get\<close>\<close>
  "default_weights = \<lparr>performance = 10, security = 10, maintainability = 10, debug_hours = 4\<rparr>"

definition dict_get :: "('k \<rightharpoonup> 'v) \<Rightarrow> 'k \<Rightarrow> 'v \<Rightarrow> 'v" where
  \<comment> \<open>\<^verbatim>\<open>d.get(key, default)\<close>\<close>
  "dict_get d k dflt = (case d k of Some v \<Rightarrow> v | None \<Rightarrow> dflt)"

definition get_weights :: "PatternType \<Rightarrow> weights" where
  "get_weights p = dict_get PATTERN_WEIGHTS p default_weights"

fun SEVERITY_MULTIPLIERS :: "Severity \<Rightarrow> rat" where
  \<comment> \<open>a dictionary indexed without a default; every member of the enumeration is a key\<close>
  "SEVERITY_MULTIPLIERS CRITICAL = 2"
| "SEVERITY_MULTIPLIERS WARNING = 1"
| "SEVERITY_MULTIPLIERS INFO = 1 / 2"

text \<open>
  The body of the \<^verbatim>\<open>for\<close> loop: the four accumulators after one more detection.
  \<^verbatim>\<open>w * multiplier * confidence\<close> associates to the left, and each product and each
  sum is rounded.
\<close>

definition accumulate :: "rat \<times> rat \<times> rat \<times> rat \<Rightarrow> Detection \<Rightarrow> rat \<times> rat \<times> rat \<times> rat" where
  "accumulate acc detection =
     (case acc of (performance_acc, security_acc, maintainability_acc, debug_hours_acc) \<Rightarrow>
        let ws = get_weights (pattern_type detection);
            multiplier = SEVERITY_MULTIPLIERS (severity detection);
            c = confidence detection
        in (fadd performance_acc (fmul (fmul (py_float (performance ws)) multiplier) c),
            fadd security_acc (fmul (fmul (py_float (security ws)) multiplier) c),
            fadd maintainability_acc (fmul (fmul (py_float (maintainability ws)) multiplier) c),
            fadd debug_hours_acc (fmul (fmul (debug_hours ws) multiplier) c)))"

fun assess_loop :: "Detection list \<Rightarrow> rat \<times> rat \<times> rat \<times> rat \<Rightarrow> rat \<times> rat \<times> rat \<times> rat" where
  "assess_loop [] acc = acc"
| "assess_loop (detection # detections) acc = assess_loop detections (accumulate acc detection)"

definition assess_impact :: "Detection list \<Rightarrow> ImpactScore" where
  "assess_impact detections =
     (if detections = [] then
        \<lparr>total_score = 0, performance_cost = 0, security_risk = 0, maintainability_debt = 0,
         estimated_debug_hours = 0, risk_level = ''LOW''\<rparr>
      else
        case assess_loop detections (0, 0, 0, 0) of
          (performance_acc, security_acc, maintainability_acc, debug_hours_acc) \<Rightarrow>
        let num_detections = int (length detections);
            pc = min 100 (py_int (fdiv performance_acc (py_float (max num_detections 1))));
            sr = min 100 (py_int (fdiv security_acc (py_float (max num_detections 1))));
            md = min 100 (py_int (fdiv maintainability_acc (py_float (max num_detections 1))));
            total = py_int (fadd (fadd (fmul (py_float pc) (fl (3 / 10)))
                                       (fmul (py_float sr) (fl (4 / 10))))
                                 (fmul (py_float md) (fl (3 / 10))));
            level = (if total \<ge> 80 \<or> sr \<ge> 90 then ''CRITICAL''
                     else if total \<ge> 60 \<or> sr \<ge> 70 then ''HIGH''
                     else if total \<ge> 40 then ''MEDIUM''
                     else ''LOW'')
        in \<lparr>total_score = total, performance_cost = pc, security_risk = sr,
            maintainability_debt = md, estimated_debug_hours = py_round1 debug_hours_acc,
            risk_level = level\<rparr>)"

subsection \<open>The claims' own words, as definitions\<close>

definition risk_rule :: "int \<Rightarrow> int \<Rightarrow> string" where
  \<comment> \<open>the risk rule as the specification lists it, first match first\<close>
  "risk_rule score sec =
     (if score \<ge> 80 \<or> sec \<ge> 90 then ''CRITICAL''
      else if score \<ge> 60 \<or> sec \<ge> 70 then ''HIGH''
      else if score \<ge> 40 then ''MEDIUM''
      else ''LOW'')"

definition severity_multiplier :: "Severity \<Rightarrow> rat" where
  "severity_multiplier s = (case s of CRITICAL \<Rightarrow> 2 | WARNING \<Rightarrow> 1 | INFO \<Rightarrow> 1 / 2)"

definition category_weight :: "(weights \<Rightarrow> rat) \<Rightarrow> PatternType \<Rightarrow> rat" where
  \<comment> \<open>one component of the category's weight tuple; \<open>(10, 10, 10, 4.0)\<close> for a category
      that is not in the table\<close>
  "category_weight component p =
     (case PATTERN_WEIGHTS p of
        Some w \<Rightarrow> component w
      | None \<Rightarrow> component \<lparr>performance = 10, security = 10, maintainability = 10, debug_hours = 4\<rparr>)"

definition weighted_sum :: "(weights \<Rightarrow> rat) \<Rightarrow> Detection list \<Rightarrow> rat" where
  \<comment> \<open>the sum over the findings, in list order, of weight * multiplier * confidence,
      in binary64\<close>
  "weighted_sum component findings =
     foldl (\<lambda>acc d. fadd acc (fmul (fmul (category_weight component (pattern_type d))
                                        (severity_multiplier (severity d)))
                                  (confidence d)))
           0 findings"

definition normalised :: "(weights \<Rightarrow> rat) \<Rightarrow> Detection list \<Rightarrow> int" where
  "normalised component findings =
     min 100 (py_int (fdiv (weighted_sum component findings) (py_float (int (length findings)))))"

definition agree :: "Detection \<Rightarrow> Detection \<Rightarrow> bool" where
  "agree a b \<longleftrightarrow>
     pattern_type a = pattern_type b \<and> severity a = severity b \<and> confidence a = confidence b"

subsection \<open>Sample findings\<close>

definition hit_credentials :: Detection where
  "hit_credentials =
     \<lparr>pattern_type = SECURITY_SHORTCUT, severity = CRITICAL, line_number = 9,
      code_snippet = ''password = '' @ [CHR 0x22] @ ''hardcoded_secret_123'' @ [CHR 0x22],
      description = ''Hardcoded credentials'',
      impact = ''CREDENTIAL LEAK! Credentials in code will be in git, logs, error messages.'',
      recommendation = ''Use environment variables: os.environ['' @ [CHR 0x27] @ ''API_KEY'' @ [CHR 0x27] @ ''] or secrets manager'',
      confidence = fl (95 / 100)\<rparr>"

definition hit_bare_except :: Detection where
  "hit_bare_except =
     \<lparr>pattern_type = SILENT_FALLBACK, severity = CRITICAL, line_number = 6,
      code_snippet = ''except:'',
      description = ''Bare except: pass silences ALL exceptions including critical ones'',
      impact = ''Crashes and errors will be invisible. Debugging impossible. Production failures go unnoticed.'',
      recommendation = ''Add logging: logger.exception('' @ [CHR 0x27] @ ''Error in X'' @ [CHR 0x27] @ '') OR catch specific exceptions'',
      confidence = 1\<rparr>"

subsection \<open>Rounding, one step at a time\<close>

text \<open>
  The same rounding with its intermediate values named, so that a computation on
  numerals evaluates each of them once.
\<close>

definition rne_at :: "rat \<Rightarrow> int \<Rightarrow> int" where
  "rne_at z f =
     (if z - of_int f < 1 / 2 then f else if 1 / 2 < z - of_int f then f + 1
      else if even f then f else f + 1)"

definition quantum_at :: "int \<Rightarrow> rat" where
  "quantum_at e = 2 powi (max e (- 1022) - 52)"

definition fl_at :: "rat \<Rightarrow> rat \<Rightarrow> rat" where
  "fl_at x q = of_int (round_half_even (x / q)) * q"

subsection \<open>Exact sums\<close>

definition exact_term :: "(weights \<Rightarrow> rat) \<Rightarrow> Detection \<Rightarrow> rat" where
  \<comment> \<open>weight times multiplier times confidence as a rational number, nothing rounded\<close>
  "exact_term component d =
     category_weight component (pattern_type d) * severity_multiplier (severity d) * confidence d"

definition exact_sums :: "Detection list \<Rightarrow> rat \<times> rat \<times> rat \<times> rat" where
  "exact_sums ds =
     (sum_list (map (exact_term (\<lambda>w. of_int (performance w))) ds),
      sum_list (map (exact_term (\<lambda>w. of_int (security w))) ds),
      sum_list (map (exact_term (\<lambda>w. of_int (maintainability w))) ds),
      sum_list (map (exact_term debug_hours) ds))"

definition unrounded :: "Detection list \<Rightarrow> bool" where
  \<comment> \<open>the loop's four accumulators come out as the exact sums\<close>
  "unrounded ds \<longleftrightarrow> assess_loop ds (0, 0, 0, 0) = exact_sums ds"

definition step_of :: "(weights \<Rightarrow> rat) \<Rightarrow> rat \<Rightarrow> Detection \<Rightarrow> rat" where
  \<comment> \<open>one accumulator after one more finding\<close>
  "step_of component acc d =
     fadd acc (fmul (fmul (category_weight component (pattern_type d))
                          (severity_multiplier (severity d))) (confidence d))"

subsection \<open>More sample findings\<close>

definition finding :: "PatternType \<Rightarrow> Severity \<Rightarrow> rat \<Rightarrow> Detection" where
  \<comment> \<open>a finding at line 1 with empty texts\<close>
  "finding p s c =
     \<lparr>pattern_type = p, severity = s, line_number = 1, code_snippet = [], description = [],
      impact = [], recommendation = [], confidence = c\<rparr>"

definition order_a :: "Detection list" where
  "order_a = [finding WARNING_SUPPRESSION WARNING (fl (45 / 100)),
              finding ERROR_MASKING INFO (fl (55 / 100)),
              finding WARNING_SUPPRESSION WARNING (fl (35 / 100))]"

definition order_b :: "Detection list" where
  \<comment> \<open>\<open>order_a\<close> with its last two findings exchanged\<close>
  "order_b = [finding WARNING_SUPPRESSION WARNING (fl (45 / 100)),
              finding WARNING_SUPPRESSION WARNING (fl (35 / 100)),
              finding ERROR_MASKING INFO (fl (55 / 100))]"

definition dyadic_a :: "Detection list" where
  "dyadic_a = [finding SILENT_FALLBACK CRITICAL 1, finding PERFORMANCE_DEGRADATION INFO (1 / 2),
               finding TEST_AVOIDANCE WARNING (3 / 4)]"

definition dyadic_b :: "Detection list" where
  "dyadic_b = [finding TEST_AVOIDANCE WARNING (3 / 4), finding SILENT_FALLBACK CRITICAL 1,
               finding PERFORMANCE_DEGRADATION INFO (1 / 2)]"

definition skipped_test :: Detection where
  "skipped_test =
     \<lparr>pattern_type = TEST_AVOIDANCE, severity = WARNING, line_number = 3,
      code_snippet = ''@pytest.mark.skip'', description = ''Test marked as skip'',
      impact = ''Skipped tests = untested code. Regressions will go unnoticed.'',
      recommendation = ''Fix the test instead of skipping. If temporary, add issue reference and deadline.'',
      confidence = fl (9 / 10)\<rparr>"

definition relabelled :: "Detection list" where
  \<comment> \<open>\<open>[hit_bare_except, hit_credentials]\<close> with other lines and texts\<close>
  "relabelled =
     [hit_bare_except\<lparr>line_number := 40, code_snippet := ''except :  pass''\<rparr>,
      hit_credentials\<lparr>line_number := 2, description := ''x'', impact := ''y'',
                       recommendation := ''z''\<rparr>]"

section \<open>Properties of the rounding\<close>


lemma ilog2_bounds:
  assumes "0 < x"
  shows "2 powi (ilog2 x) \<le> x" and "x < 2 powi (ilog2 x + 1)"
proof -
  have "2 powi (ilog2 x) \<le> x \<and> x < 2 powi (ilog2 x + 1)"
  proof (cases "1 \<le> x")
    case True
    define n where "n = \<lfloor>x\<rfloor>"
    have n: "0 < n" using True by (simp add: n_def)
    have e: "ilog2 x = bitlen n - 1" using True by (simp add: ilog2_def n_def)
    have b: "0 < bitlen n" using n bitlen_nonneg[of n] bitlen_eq_zero_iff[of n] by linarith
    from bitlen_bounds[OF n] have lo: "2 ^ nat (bitlen n - 1) \<le> n" and hi: "n < 2 ^ nat (bitlen n)" by auto
    have "(2::rat) powi (bitlen n - 1) = 2 ^ nat (bitlen n - 1)" using b by (simp add: power_int_def)
    also have "\<dots> = of_int (2 ^ nat (bitlen n - 1))" by simp
    also have "\<dots> \<le> of_int n" using lo by (simp only: of_int_le_iff)
    also have "\<dots> \<le> x" by (simp add: n_def)
    finally have 1: "2 powi (ilog2 x) \<le> x" by (simp add: e)
    have "n + 1 \<le> 2 ^ nat (bitlen n)" using hi by simp
    then have "(of_int (n + 1) :: rat) \<le> of_int (2 ^ nat (bitlen n))" by (simp only: of_int_le_iff)
    moreover have "x < of_int (n + 1)" using floor_correct[of x] by (simp add: n_def)
    ultimately have "x < of_int (2 ^ nat (bitlen n))" by linarith
    also have "\<dots> = 2 powi (bitlen n)" using b by (simp add: power_int_def)
    finally have 2: "x < 2 powi (ilog2 x + 1)" by (simp add: e)
    show ?thesis using 1 2 by simp
  next
    case False
    define y where "y = 1 / x"
    define k where "k = \<lceil>y\<rceil> - 1"
    have y1: "1 < y" using False assms by (simp add: y_def)
    then have "2 \<le> \<lceil>y\<rceil>" by (simp add: le_ceiling_iff)
    then have k: "0 < k" by (simp add: k_def)
    have ky: "of_int k < y" "y \<le> of_int k + 1"
      using ceiling_correct[of y] by (simp_all add: k_def)
    have e: "ilog2 x = - bitlen k" using False by (simp add: ilog2_def k_def y_def)
    have b: "0 < bitlen k" using k bitlen_nonneg[of k] bitlen_eq_zero_iff[of k] by linarith
    from bitlen_bounds[OF k] have lo: "2 ^ nat (bitlen k - 1) \<le> k" and hi: "k < 2 ^ nat (bitlen k)" by auto
    have "k + 1 \<le> 2 ^ nat (bitlen k)" using hi by simp
    then have "(of_int (k + 1) :: rat) \<le> of_int (2 ^ nat (bitlen k))" by (simp only: of_int_le_iff)
    then have "of_int k + 1 \<le> (2::rat) ^ nat (bitlen k)" by (simp only: of_int_power of_int_numeral of_int_add of_int_1)
    then have "y \<le> 2 ^ nat (bitlen k)" using ky by linarith
    then have "1 / x \<le> 2 ^ nat (bitlen k)" by (simp add: y_def)
    then have "1 / 2 ^ nat (bitlen k) \<le> x" using assms
      by (simp add: field_simps)
    moreover have "(2::rat) powi (- bitlen k) = 1 / 2 ^ nat (bitlen k)" using b
      by (simp add: power_int_def field_simps)
    ultimately have 1: "2 powi (ilog2 x) \<le> x" by (simp add: e)
    have "(of_int (2 ^ nat (bitlen k - 1)) :: rat) \<le> of_int k" using lo by (simp only: of_int_le_iff)
    then have "(2::rat) ^ nat (bitlen k - 1) \<le> of_int k" by (simp only: of_int_power of_int_numeral)
    then have "2 ^ nat (bitlen k - 1) < y" using ky by linarith
    then have "2 ^ nat (bitlen k - 1) < 1 / x" by (simp add: y_def)
    then have "x < 1 / 2 ^ nat (bitlen k - 1)" using assms by (simp add: field_simps)
    moreover have "(2::rat) powi (- bitlen k + 1) = 1 / 2 ^ nat (bitlen k - 1)"
    proof -
      have "- bitlen k + 1 = - int (nat (bitlen k - 1))" using b by simp
      then show ?thesis by (simp only: power_int_minus power_int_of_nat inverse_eq_divide)
    qed
    ultimately have 2: "x < 2 powi (ilog2 x + 1)" by (simp add: e)
    show ?thesis using 1 2 by simp
  qed
  then show "2 powi (ilog2 x) \<le> x" and "x < 2 powi (ilog2 x + 1)" by simp_all
qed

lemma ilog2_mono:
  assumes "0 < x" "x \<le> y"
  shows "ilog2 x \<le> ilog2 y"
proof (rule ccontr)
  assume "\<not> ilog2 x \<le> ilog2 y"
  then have "ilog2 y + 1 \<le> ilog2 x" by simp
  then have "(2::rat) powi (ilog2 y + 1) \<le> 2 powi (ilog2 x)"
    by (intro power_int_increasing) simp_all
  also have "\<dots> \<le> x" using ilog2_bounds(1)[OF assms(1)] .
  also have "\<dots> \<le> y" by fact
  also have "\<dots> < 2 powi (ilog2 y + 1)" using ilog2_bounds(2)[of y] assms by simp
  finally show False by simp
qed


lemma rne_cases: "round_half_even z = \<lfloor>z\<rfloor> \<or> round_half_even z = \<lfloor>z\<rfloor> + 1"
  by (simp add: round_half_even_def Let_def)

lemma rne_ge_floor: "\<lfloor>z\<rfloor> \<le> round_half_even z"
  using rne_cases[of z] by auto

lemma rne_of_int [simp]: "round_half_even (of_int m) = m"
  by (simp add: round_half_even_def Let_def)

lemma rne_le_int:
  assumes "z \<le> of_int m"
  shows "round_half_even z \<le> m"
proof (cases "z = of_int m")
  case True
  then show ?thesis by simp
next
  case False
  then have "z < of_int m" using assms by simp
  then have "\<lfloor>z\<rfloor> < m" by (simp add: floor_less_iff)
  then show ?thesis using rne_cases[of z] by auto
qed

lemma int_le_rne:
  assumes "of_int m \<le> z"
  shows "m \<le> round_half_even z"
proof -
  have "m \<le> \<lfloor>z\<rfloor>" using assms by (simp add: le_floor_iff)
  then show ?thesis using rne_ge_floor[of z] by simp
qed

lemma rne_mono:
  assumes "z \<le> z'"
  shows "round_half_even z \<le> round_half_even z'"
proof (cases "\<lfloor>z\<rfloor> = \<lfloor>z'\<rfloor>")
  case True
  then have "z - of_int \<lfloor>z\<rfloor> \<le> z' - of_int \<lfloor>z'\<rfloor>" using assms by simp
  then show ?thesis using True by (auto simp add: round_half_even_def Let_def)
next
  case False
  then have "\<lfloor>z\<rfloor> < \<lfloor>z'\<rfloor>" using floor_mono[OF assms] by simp
  then have "round_half_even z \<le> \<lfloor>z'\<rfloor>" using rne_cases[of z] by auto
  then show ?thesis using rne_ge_floor[of z'] by simp
qed

lemma rne_minus: "round_half_even (- z) = - round_half_even z"
proof (cases "z = of_int \<lfloor>z\<rfloor>")
  case True
  then obtain m where "z = of_int m" ..
  then show ?thesis by (simp flip: of_int_minus)
next
  case False
  define f where "f = \<lfloor>z\<rfloor>"
  define r where "r = z - of_int f"
  have lt: "of_int f < z" using False of_int_floor_le[of z] unfolding f_def
    by (metis order.strict_iff_order)
  have up: "z < of_int f + 1" using floor_correct[of z] by (simp add: f_def)
  have fneg: "\<lfloor>- z\<rfloor> = - f - 1"
  proof (rule floor_unique)
    show "of_int (- f - 1) \<le> - z" using up by simp
    show "- z < of_int (- f - 1) + 1" using lt by simp
  qed
  have rneg: "- z - of_int (- f - 1) = 1 - r" by (simp add: r_def)
  have a: "round_half_even z = (if r < 1 / 2 then f else if 1 / 2 < r then f + 1 else if even f then f else f + 1)"
    by (simp add: round_half_even_def Let_def f_def r_def)
  have b: "round_half_even (- z) =
      (if 1 - r < 1 / 2 then - f - 1 else if 1 / 2 < 1 - r then - f - 1 + 1
       else if even (- f - 1) then - f - 1 else - f - 1 + 1)"
    unfolding round_half_even_def Let_def fneg rneg by (rule refl)
  consider "r < 1 / 2" | "1 / 2 < r" | "r = 1 / 2" by linarith
  then show ?thesis
  proof cases
    case 1
    then show ?thesis unfolding a b by simp
  next
    case 2
    then show ?thesis unfolding a b by simp
  next
    case 3
    then show ?thesis unfolding a b by simp
  qed
qed

lemma quantum_pos: "0 < quantum x"
  by (simp add: quantum_def)

lemma fl_pos_eq: "x \<noteq> 0 \<Longrightarrow> fl x = of_int (round_half_even (x / quantum x)) * quantum x"
  by (simp add: fl_def)

lemma quantum_minus [simp]: "quantum (- x) = quantum x"
  by (simp add: quantum_def)

lemma fl_minus: "fl (- x) = - fl x"
  by (simp add: fl_def rne_minus)

lemma fl_nonneg: "0 \<le> x \<Longrightarrow> 0 \<le> fl x"
proof -
  assume x: "0 \<le> x"
  have "0 \<le> x / quantum x" using x quantum_pos[of x] by simp
  then have "0 \<le> round_half_even (x / quantum x)" using int_le_rne[of 0] by simp
  then show "0 \<le> fl x" using quantum_pos[of x] by (simp add: fl_def)
qed

lemma fl_mono_pos:
  assumes "0 < x" "x \<le> y"
  shows "fl x \<le> fl y"
proof -
  have y: "0 < y" using assms by simp
  define ex where "ex = ilog2 x"
  define ey where "ey = ilog2 y"
  define mx where "mx = max ex (- 1022)"
  define my where "my = max ey (- 1022)"
  have qx: "quantum x = 2 powi (mx - 52)" using assms by (simp add: quantum_def mx_def ex_def)
  have qy: "quantum y = 2 powi (my - 52)" using y by (simp add: quantum_def my_def ey_def)
  have fx: "fl x = of_int (round_half_even (x / quantum x)) * quantum x" using assms by (simp add: fl_def)
  have fy: "fl y = of_int (round_half_even (y / quantum y)) * quantum y" using y by (simp add: fl_def)
  have e: "ex \<le> ey" unfolding ex_def ey_def by (rule ilog2_mono[OF assms])
  then have m: "mx \<le> my" by (simp add: mx_def my_def)
  show ?thesis
  proof (cases "mx = my")
    case True
    then have q: "quantum y = quantum x" by (simp add: qx qy)
    have "x / quantum x \<le> y / quantum x" using assms quantum_pos[of x] by (simp add: divide_right_mono)
    then have "round_half_even (x / quantum x) \<le> round_half_even (y / quantum x)" by (rule rne_mono)
    then have "(of_int (round_half_even (x / quantum x)) :: rat) \<le> of_int (round_half_even (y / quantum x))"
      by (simp only: of_int_le_iff)
    then show ?thesis unfolding fx fy q using quantum_pos[of x] by (simp add: mult_right_mono)
  next
    case False
    then have lt: "mx < my" using m by simp
    then have my_ey: "my = ey" and ex_ey: "ex < ey" by (auto simp add: mx_def my_def)
    define B :: rat where "B = 2 powi ey"
    have xB: "x \<le> B"
    proof -
      have "x < 2 powi (ex + 1)" unfolding ex_def by (rule ilog2_bounds(2)[OF assms(1)])
      also have "\<dots> \<le> 2 powi ey" using ex_ey by (intro power_int_increasing) simp_all
      finally show ?thesis by (simp add: B_def)
    qed
    have By: "B \<le> y" unfolding B_def ey_def by (rule ilog2_bounds(1)[OF y])
    define kx where "kx = nat (ey - mx + 52)"
    have Bx: "B = of_int (2 ^ kx) * quantum x"
    proof -
      have "0 \<le> ey - mx + 52" using lt my_ey by simp
      then have "(2::rat) powi (ey - mx + 52) = 2 ^ kx" by (simp add: power_int_def kx_def)
      moreover have "(2::rat) powi ey = 2 powi (ey - mx + 52) * 2 powi (mx - 52)"
        by (simp flip: power_int_add)
      ultimately show ?thesis by (simp add: B_def qx)
    qed
    have Byq: "B = of_int (2 ^ 52) * quantum y"
    proof -
      have "(2::rat) powi ey = 2 powi (52 + (ey - 52))" by simp
      also have "\<dots> = 2 powi 52 * 2 powi (ey - 52)" by (rule power_int_add) simp
      finally show ?thesis by (simp add: B_def qy my_ey)
    qed
    have "x / quantum x \<le> of_int (2 ^ kx)"
      using xB quantum_pos[of x] unfolding Bx by (simp add: field_simps)
    then have "round_half_even (x / quantum x) \<le> 2 ^ kx" by (rule rne_le_int)
    then have "(of_int (round_half_even (x / quantum x)) :: rat) \<le> of_int (2 ^ kx)"
      by (simp only: of_int_le_iff)
    then have 1: "fl x \<le> B" unfolding fx Bx using quantum_pos[of x] by (simp add: mult_right_mono)
    have "of_int (2 ^ 52) \<le> y / quantum y"
      using By quantum_pos[of y] unfolding Byq by (simp add: field_simps)
    then have "2 ^ 52 \<le> round_half_even (y / quantum y)" by (rule int_le_rne)
    then have "(of_int (2 ^ 52) :: rat) \<le> of_int (round_half_even (y / quantum y))"
      by (simp only: of_int_le_iff)
    then have 2: "B \<le> fl y" unfolding fy Byq using quantum_pos[of y] by (simp add: mult_right_mono)
    show ?thesis using 1 2 by simp
  qed
qed

lemma fl_mono:
  assumes "x \<le> y"
  shows "fl x \<le> fl y"
proof -
  consider "0 < x" | "x \<le> 0" "0 \<le> y" | "y < 0" by linarith
  then show ?thesis
  proof cases
    case 1
    then show ?thesis using assms by (rule fl_mono_pos)
  next
    case 2
    have "0 \<le> fl (- x)" using 2 by (intro fl_nonneg) simp
    then have "fl x \<le> 0" by (simp add: fl_minus)
    moreover have "0 \<le> fl y" using 2 by (intro fl_nonneg)
    ultimately show ?thesis by simp
  next
    case 3
    then have "fl (- y) \<le> fl (- x)" using assms by (intro fl_mono_pos) simp_all
    then show ?thesis by (simp add: fl_minus)
  qed
qed

lemma py_int_mono:
  assumes "x \<le> y"
  shows "py_int x \<le> py_int y"
proof -
  consider "0 \<le> x" | "x < 0" "0 \<le> y" | "y < 0" by linarith
  then show ?thesis
  proof cases
    case 1
    then show ?thesis using assms by (simp add: py_int_def floor_mono)
  next
    case 2
    have a: "0 \<le> \<lfloor>- x\<rfloor>" using 2 by simp
    have b: "0 \<le> \<lfloor>y\<rfloor>" using 2 by simp
    have "py_int x = - \<lfloor>- x\<rfloor>" "py_int y = \<lfloor>y\<rfloor>" using 2 by (simp_all add: py_int_def)
    then show ?thesis using a b by linarith
  next
    case 3
    then have "\<lfloor>- y\<rfloor> \<le> \<lfloor>- x\<rfloor>" using assms by (intro floor_mono) simp
    then show ?thesis using 3 assms by (simp add: py_int_def)
  qed
qed


section \<open>Evaluation of the arithmetic on numerals\<close>

lemma bitlen_numeral_simps:
  "bitlen (numeral (Num.Bit0 n)) = bitlen (numeral n) + 1"
  "bitlen (numeral (Num.Bit1 n)) = bitlen (numeral n) + 1"
  "bitlen 1 = 1"
  "bitlen (numeral Num.One) = 1"
  by (subst compute_bitlen, simp)+

lemma floor_rat_numeral:
  "\<lfloor>numeral a / numeral b :: rat\<rfloor> = numeral a div numeral b"
  "\<lfloor>- (numeral a / numeral b :: rat)\<rfloor> = - numeral a div numeral b"
  "\<lfloor>1 / numeral b :: rat\<rfloor> = 1 div numeral b"
  "\<lfloor>- (1 / numeral b :: rat)\<rfloor> = - 1 div numeral b"
  using floor_divide_of_int_eq[of "numeral a" "numeral b", where ?'a = rat]
        floor_divide_of_int_eq[of "- numeral a" "numeral b", where ?'a = rat]
        floor_divide_of_int_eq[of "1" "numeral b", where ?'a = rat]
        floor_divide_of_int_eq[of "- 1" "numeral b", where ?'a = rat]
  by simp_all

lemma ceiling_rat_numeral:
  "\<lceil>numeral a / numeral b :: rat\<rceil> = - (- numeral a div numeral b)"
  "\<lceil>1 / numeral b :: rat\<rceil> = - (- 1 div numeral b)"
  by (simp_all add: ceiling_def floor_rat_numeral)

lemma round_half_even_eval: "round_half_even z = rne_at z \<lfloor>z\<rfloor>"
  by (simp add: round_half_even_def rne_at_def Let_def)

lemma fl_eval: "fl x = (if x = 0 then 0 else fl_at x (quantum_at (ilog2 \<bar>x\<bar>)))"
  by (simp add: fl_def fl_at_def quantum_at_def quantum_def)

lemmas float_eval =
  fl_eval fl_at_def quantum_at_def round_half_even_eval rne_at_def ilog2_def
  bitlen_numeral_simps floor_rat_numeral ceiling_rat_numeral fadd_def fmul_def fdiv_def
  py_float_def py_int_def py_round1_def

lemma category_weight_simps:
  "category_weight f SILENT_FALLBACK =
     f \<lparr>performance = 10, security = 30, maintainability = 50, debug_hours = 8\<rparr>"
  "category_weight f WARNING_SUPPRESSION =
     f \<lparr>performance = 5, security = 20, maintainability = 40, debug_hours = 4\<rparr>"
  "category_weight f ASSUMPTION_BYPASS =
     f \<lparr>performance = 10, security = 40, maintainability = 30, debug_hours = 6\<rparr>"
  "category_weight f DUPLICATE_CODE =
     f \<lparr>performance = 15, security = 10, maintainability = 60, debug_hours = 12\<rparr>"
  "category_weight f PERFORMANCE_DEGRADATION =
     f \<lparr>performance = 70, security = 5, maintainability = 20, debug_hours = 16\<rparr>"
  "category_weight f SECURITY_SHORTCUT =
     f \<lparr>performance = 5, security = 95, maintainability = 30, debug_hours = 24\<rparr>"
  "category_weight f ERROR_MASKING =
     f \<lparr>performance = 10, security = 15, maintainability = 45, debug_hours = 10\<rparr>"
  "category_weight f TEST_AVOIDANCE =
     f \<lparr>performance = 5, security = 10, maintainability = 50, debug_hours = 20\<rparr>"
  by (simp_all add: category_weight_def PATTERN_WEIGHTS_def)

lemma hit_credentials_sel:
  "pattern_type hit_credentials = SECURITY_SHORTCUT"
  "severity hit_credentials = CRITICAL"
  "confidence hit_credentials = 4278419646001971 / 4503599627370496"
  by (simp_all add: hit_credentials_def float_eval)

lemma hit_bare_except_sel:
  "pattern_type hit_bare_except = SILENT_FALLBACK"
  "severity hit_bare_except = CRITICAL"
  "confidence hit_bare_except = 1"
  by (simp_all add: hit_bare_except_def)

section \<open>The assessor's result, field by field\<close>

lemma category_weight_eq: "category_weight f p = f (get_weights p)"
  by (simp add: category_weight_def get_weights_def dict_get_def default_weights_def
      split: option.split)

lemma severity_multiplier_eq: "severity_multiplier s = SEVERITY_MULTIPLIERS s"
  by (cases s) (simp_all add: severity_multiplier_def)

lemma assess_loop_foldl: "assess_loop ds acc = foldl accumulate acc ds"
  by (induction ds arbitrary: acc) simp_all

lemma foldl_accumulate:
  "foldl accumulate (p, s, m, h) ds =
     (foldl (\<lambda>acc d. fadd acc (fmul (fmul (category_weight (\<lambda>w. py_float (performance w)) (pattern_type d))
                                        (severity_multiplier (severity d))) (confidence d))) p ds,
      foldl (\<lambda>acc d. fadd acc (fmul (fmul (category_weight (\<lambda>w. py_float (security w)) (pattern_type d))
                                        (severity_multiplier (severity d))) (confidence d))) s ds,
      foldl (\<lambda>acc d. fadd acc (fmul (fmul (category_weight (\<lambda>w. py_float (maintainability w)) (pattern_type d))
                                        (severity_multiplier (severity d))) (confidence d))) m ds,
      foldl (\<lambda>acc d. fadd acc (fmul (fmul (category_weight debug_hours (pattern_type d))
                                        (severity_multiplier (severity d))) (confidence d))) h ds)"
  by (induction ds arbitrary: p s m h)
     (simp_all add: accumulate_def category_weight_eq severity_multiplier_eq Let_def)

lemma assess_loop_sums:
  "assess_loop ds (0, 0, 0, 0) =
     (weighted_sum (\<lambda>w. py_float (performance w)) ds,
      weighted_sum (\<lambda>w. py_float (security w)) ds,
      weighted_sum (\<lambda>w. py_float (maintainability w)) ds,
      weighted_sum debug_hours ds)"
  by (simp add: assess_loop_foldl foldl_accumulate weighted_sum_def)

lemma max_length_1: "ds \<noteq> [] \<Longrightarrow> max (int (length ds)) 1 = int (length ds)"
  by (cases ds) simp_all

lemma assess_impact_nonempty:
  assumes "ds \<noteq> []"
  shows "assess_impact ds =
     (let pc = normalised (\<lambda>w. py_float (performance w)) ds;
          sr = normalised (\<lambda>w. py_float (security w)) ds;
          md = normalised (\<lambda>w. py_float (maintainability w)) ds;
          t = py_int (fadd (fadd (fmul (py_float pc) (fl (3 / 10))) (fmul (py_float sr) (fl (4 / 10))))
                           (fmul (py_float md) (fl (3 / 10))))
      in \<lparr>total_score = t, performance_cost = pc, security_risk = sr, maintainability_debt = md,
          estimated_debug_hours = py_round1 (weighted_sum debug_hours ds),
          risk_level = risk_rule t sr\<rparr>)"
  unfolding assess_impact_def assess_loop_sums normalised_def risk_rule_def
  by (simp only: assms if_False prod.case Let_def max_length_1[OF assms])

lemma assess_impact_fields:
  assumes "ds \<noteq> []"
  shows "performance_cost (assess_impact ds) = normalised (\<lambda>w. py_float (performance w)) ds"
    and "security_risk (assess_impact ds) = normalised (\<lambda>w. py_float (security w)) ds"
    and "maintainability_debt (assess_impact ds) = normalised (\<lambda>w. py_float (maintainability w)) ds"
    and "estimated_debug_hours (assess_impact ds) = py_round1 (weighted_sum debug_hours ds)"
    and "total_score (assess_impact ds) =
           py_int (fadd (fadd (fmul (py_float (performance_cost (assess_impact ds))) (fl (3 / 10)))
                              (fmul (py_float (security_risk (assess_impact ds))) (fl (4 / 10))))
                        (fmul (py_float (maintainability_debt (assess_impact ds))) (fl (3 / 10))))"
    and "risk_level (assess_impact ds) =
           risk_rule (total_score (assess_impact ds)) (security_risk (assess_impact ds))"
  by (simp_all only: assess_impact_nonempty[OF assms] Let_def ImpactScore.simps)

lemmas table_eval =
  weighted_sum_def category_weight_simps severity_multiplier_def normalised_def

section \<open>Claims about the impact assessor\<close>

text \<open>
  C4. \<open>assess_impact\<close> applied to the empty findings list returns the zero-value score:
  every metric 0, 0.0 estimated debug hours, risk level LOW.
\<close>

theorem assess_impact_empty:
  "assess_impact [] =
     \<lparr>total_score = 0, performance_cost = 0, security_risk = 0, maintainability_debt = 0,
      estimated_debug_hours = 0, risk_level = ''LOW''\<rparr>"
  by (simp add: assess_impact_def)

text \<open>
  C2. For every findings list, the risk level of the returned score is the value of the
  four-way rule (CRITICAL when the total is at least 80 or the security risk at least 90;
  else HIGH when the total is at least 60 or the security risk at least 70; else MEDIUM
  when the total is at least 40; else LOW) at the score's own \<open>total_score\<close> and
  \<open>security_risk\<close>: no other part of the input enters it.
\<close>

theorem risk_level_is_risk_rule:
  "risk_level (assess_impact findings) =
     risk_rule (total_score (assess_impact findings)) (security_risk (assess_impact findings))"
proof (cases "findings = []")
  case True
  then show ?thesis by (simp add: assess_impact_def risk_rule_def)
next
  case False
  then show ?thesis by (rule assess_impact_fields(6))
qed

text \<open>
  C3. For every non-empty findings list, each of \<open>performance_cost\<close>,
  \<open>security_risk\<close> and \<open>maintainability_debt\<close> is the smaller of 100 and the
  truncation of the sum over the findings of category weight times severity multiplier
  times confidence, divided by the number of findings; the multipliers are 2, 1 and 1/2,
  and a category outside the table weighs \<open>(10, 10, 10, 4)\<close>
  (\<open>category_weight\<close>, \<open>severity_multiplier\<close>); \<open>total_score\<close> is the truncation
  of \<open>performance_cost * 0.3 + security_risk * 0.4 + maintainability_debt * 0.3\<close>; and
  \<open>estimated_debug_hours\<close> is the accumulated debug-hours sum, not divided by the
  count, rounded to one decimal. Sums and products are binary64 operations, the sums
  taken in list order.
\<close>

theorem assess_impact_formula:
  assumes "findings \<noteq> []"
  shows "performance_cost (assess_impact findings) =
           min 100 (py_int (fdiv (weighted_sum (\<lambda>w. py_float (performance w)) findings)
                                 (py_float (int (length findings)))))
       \<and> security_risk (assess_impact findings) =
           min 100 (py_int (fdiv (weighted_sum (\<lambda>w. py_float (security w)) findings)
                                 (py_float (int (length findings)))))
       \<and> maintainability_debt (assess_impact findings) =
           min 100 (py_int (fdiv (weighted_sum (\<lambda>w. py_float (maintainability w)) findings)
                                 (py_float (int (length findings)))))
       \<and> total_score (assess_impact findings) =
           py_int (fadd (fadd (fmul (py_float (performance_cost (assess_impact findings))) (fl (3 / 10)))
                              (fmul (py_float (security_risk (assess_impact findings))) (fl (4 / 10))))
                        (fmul (py_float (maintainability_debt (assess_impact findings))) (fl (3 / 10))))
       \<and> estimated_debug_hours (assess_impact findings) =
           py_round1 (weighted_sum debug_hours findings)"
  using assess_impact_fields[OF assms] by (simp only: normalised_def simp_thms)

theorem assess_impact_formula_witness:
  "[hit_credentials, hit_bare_except] \<noteq> []
   \<and> performance_cost (assess_impact [hit_credentials, hit_bare_except]) = 14
   \<and> security_risk (assess_impact [hit_credentials, hit_bare_except]) = 100
   \<and> maintainability_debt (assess_impact [hit_credentials, hit_bare_except]) = 78
   \<and> total_score (assess_impact [hit_credentials, hit_bare_except]) = 67
   \<and> estimated_debug_hours (assess_impact [hit_credentials, hit_bare_except]) = fl (616 / 10)"
proof -
  have ne: "[hit_credentials, hit_bare_except] \<noteq> []" by simp
  note f = assess_impact_formula[OF ne]
  have p: "performance_cost (assess_impact [hit_credentials, hit_bare_except]) = 14"
    by (subst f[THEN conjunct1])
       (simp add: table_eval hit_credentials_sel hit_bare_except_sel float_eval)
  have s: "security_risk (assess_impact [hit_credentials, hit_bare_except]) = 100"
    by (subst f[THEN conjunct2, THEN conjunct1])
       (simp add: table_eval hit_credentials_sel hit_bare_except_sel float_eval)
  have m: "maintainability_debt (assess_impact [hit_credentials, hit_bare_except]) = 78"
    by (subst f[THEN conjunct2, THEN conjunct2, THEN conjunct1])
       (simp add: table_eval hit_credentials_sel hit_bare_except_sel float_eval)
  have t: "total_score (assess_impact [hit_credentials, hit_bare_except]) = 67"
    by (subst f[THEN conjunct2, THEN conjunct2, THEN conjunct2, THEN conjunct1], unfold p s m)
       (simp add: float_eval)
  have h: "estimated_debug_hours (assess_impact [hit_credentials, hit_bare_except]) = fl (616 / 10)"
    by (subst f[THEN conjunct2, THEN conjunct2, THEN conjunct2, THEN conjunct2])
       (simp add: table_eval hit_credentials_sel hit_bare_except_sel float_eval)
  show ?thesis using ne p s m t h by (simp only: simp_thms)
qed


lemma finding_sel [simp]:
  "pattern_type (finding p s c) = p" "severity (finding p s c) = s" "confidence (finding p s c) = c"
  by (simp_all add: finding_def)

lemma skipped_test_sel:
  "pattern_type skipped_test = TEST_AVOIDANCE"
  "severity skipped_test = WARNING"
  "confidence skipped_test = 8106479329266893 / 9007199254740992"
  by (simp_all add: skipped_test_def float_eval)


lemma accumulate_agree: "agree a b \<Longrightarrow> accumulate acc a = accumulate acc b"
  by (simp add: agree_def accumulate_def)

lemma assess_loop_agree:
  "list_all2 agree xs ys \<Longrightarrow> assess_loop xs acc = assess_loop ys acc"
proof (induction xs ys arbitrary: acc rule: list_all2_induct)
  case Nil
  show ?case by simp
next
  case (Cons x xs y ys)
  then show ?case by (simp add: accumulate_agree)
qed


text \<open>
  C10. The score depends only on each finding's \<open>pattern_type\<close>, \<open>severity\<close> and
  \<open>confidence\<close>: two findings lists of equal length whose elements agree pairwise on
  these three fields get the same \<open>ImpactScore\<close>, whatever their line numbers,
  snippets, descriptions, impact texts and recommendations.
\<close>

theorem assess_impact_agree:
  assumes "list_all2 agree xs ys"
  shows "assess_impact xs = assess_impact ys"
proof -
  have len: "length xs = length ys" using assms by (rule list_all2_lengthD)
  then have emp: "xs = [] \<longleftrightarrow> ys = []" by auto
  show ?thesis
    unfolding assess_impact_def
    by (simp only: assess_loop_agree[OF assms] len emp)
qed


theorem assess_impact_agree_witness:
  "list_all2 agree [hit_bare_except, hit_credentials] relabelled
   \<and> line_number (relabelled ! 0) \<noteq> line_number hit_bare_except
   \<and> description (relabelled ! 1) \<noteq> description hit_credentials
   \<and> assess_impact [hit_bare_except, hit_credentials] = assess_impact relabelled"
proof -
  have a: "list_all2 agree [hit_bare_except, hit_credentials] relabelled"
    by (simp add: relabelled_def agree_def)
  have b: "line_number (relabelled ! 0) \<noteq> line_number hit_bare_except"
    by (simp add: relabelled_def hit_bare_except_def)
  have c: "description (relabelled ! 1) \<noteq> description hit_credentials"
    by (simp add: relabelled_def hit_credentials_def)
  show ?thesis using a b c assess_impact_agree[OF a] by (simp only: simp_thms)
qed
lemma fadd_mono: "a \<le> a' \<Longrightarrow> b \<le> b' \<Longrightarrow> fadd a b \<le> fadd a' b'"
  by (simp add: fadd_def fl_mono add_mono)

lemma fmul_mono_left: "0 \<le> c \<Longrightarrow> a \<le> b \<Longrightarrow> fmul a c \<le> fmul b c"
  by (simp add: fmul_def fl_mono mult_right_mono)

lemma fmul_mono_right: "0 \<le> a \<Longrightarrow> b \<le> c \<Longrightarrow> fmul a b \<le> fmul a c"
  by (simp add: fmul_def fl_mono mult_left_mono)

lemma fdiv_mono: "0 \<le> n \<Longrightarrow> a \<le> b \<Longrightarrow> fdiv a n \<le> fdiv b n"
  by (simp add: fdiv_def fl_mono divide_right_mono)

lemma py_float_nonneg: "0 \<le> i \<Longrightarrow> 0 \<le> py_float i"
  by (simp add: py_float_def fl_nonneg)

lemma weighted_sum_foldl: "weighted_sum f ds = foldl (step_of f) 0 ds"
  unfolding weighted_sum_def step_of_def ..

lemma foldl_step_mono:
  "a \<le> b \<Longrightarrow> foldl (step_of f) a ds \<le> foldl (step_of f) b ds"
proof (induction ds arbitrary: a b)
  case Nil
  then show ?case by simp
next
  case (Cons d ds)
  have "step_of f a d \<le> step_of f b d" using Cons.prems by (simp add: step_of_def fadd_mono)
  then show ?case using Cons.IH by simp
qed

lemma step_raise:
  assumes "severity d = WARNING" "0 \<le> confidence d" "0 \<le> category_weight f (pattern_type d)"
  shows "step_of f a d \<le> step_of f a (d\<lparr>severity := CRITICAL\<rparr>)"
proof -
  let ?w = "category_weight f (pattern_type d)"
  have "fmul ?w 1 \<le> fmul ?w 2" using assms(3) by (intro fmul_mono_right) simp_all
  then have "fmul (fmul ?w 1) (confidence d) \<le> fmul (fmul ?w 2) (confidence d)"
    using assms(2) by (intro fmul_mono_left)
  then show ?thesis using assms(1) by (simp add: step_of_def severity_multiplier_def fadd_mono)
qed

lemma weighted_sum_raise:
  assumes "i < length ds" "severity (ds ! i) = WARNING" "0 \<le> confidence (ds ! i)"
    and "\<And>p. 0 \<le> category_weight f p"
  shows "weighted_sum f ds \<le> weighted_sum f (ds[i := (ds ! i)\<lparr>severity := CRITICAL\<rparr>])"
proof -
  let ?d = "ds ! i" and ?d' = "(ds ! i)\<lparr>severity := CRITICAL\<rparr>"
  have split: "ds = take i ds @ ?d # drop (Suc i) ds" using assms(1) by (simp add: id_take_nth_drop)
  have upd: "ds[i := ?d'] = take i ds @ ?d' # drop (Suc i) ds" using assms(1) by (simp add: upd_conv_take_nth_drop)
  have "foldl (step_of f) 0 (take i ds @ ?d # drop (Suc i) ds)
      \<le> foldl (step_of f) 0 (take i ds @ ?d' # drop (Suc i) ds)"
    using step_raise[OF assms(2,3) assms(4), of "foldl (step_of f) 0 (take i ds)"]
    by (simp add: foldl_step_mono)
  then show ?thesis unfolding weighted_sum_foldl upd using split by simp
qed

lemma normalised_raise:
  assumes "i < length ds" "severity (ds ! i) = WARNING" "0 \<le> confidence (ds ! i)"
    and "\<And>p. 0 \<le> category_weight f p"
  shows "normalised f ds \<le> normalised f (ds[i := (ds ! i)\<lparr>severity := CRITICAL\<rparr>])"
proof -
  have "0 \<le> py_float (int (length ds))" by (intro py_float_nonneg) simp
  then show ?thesis
    unfolding normalised_def
    using weighted_sum_raise[OF assms]
    by (simp add: fdiv_mono py_int_mono min.coboundedI2)
qed

lemma category_weight_nonneg:
  "0 \<le> category_weight (\<lambda>w. py_float (performance w)) p"
  "0 \<le> category_weight (\<lambda>w. py_float (security w)) p"
  "0 \<le> category_weight (\<lambda>w. py_float (maintainability w)) p"
  by (cases p; simp add: category_weight_simps py_float_nonneg)+


text \<open>
  C6. In a findings list with a WARNING finding of confidence at least 0 (the range of a
  confidence is 0.0 to 1.0), replacing that finding by one that differs only in its
  severity, CRITICAL, gives a score whose \<open>security_risk\<close>, \<open>performance_cost\<close> and
  \<open>maintainability_debt\<close> are each greater than or equal to the original's.
\<close>

theorem severity_monotone:
  assumes "i < length ds" "severity (ds ! i) = WARNING" "0 \<le> confidence (ds ! i)"
  shows "security_risk (assess_impact ds)
           \<le> security_risk (assess_impact (ds[i := (ds ! i)\<lparr>severity := CRITICAL\<rparr>]))
       \<and> performance_cost (assess_impact ds)
           \<le> performance_cost (assess_impact (ds[i := (ds ! i)\<lparr>severity := CRITICAL\<rparr>]))
       \<and> maintainability_debt (assess_impact ds)
           \<le> maintainability_debt (assess_impact (ds[i := (ds ! i)\<lparr>severity := CRITICAL\<rparr>]))"
proof -
  have ne: "ds \<noteq> []" using assms(1) by auto
  then have ne': "ds[i := (ds ! i)\<lparr>severity := CRITICAL\<rparr>] \<noteq> []" by simp
  show ?thesis
    unfolding assess_impact_fields(1-3)[OF ne] assess_impact_fields(1-3)[OF ne']
    using normalised_raise[OF assms category_weight_nonneg(1)]
          normalised_raise[OF assms category_weight_nonneg(2)]
          normalised_raise[OF assms category_weight_nonneg(3)]
    by simp
qed


theorem severity_monotone_witness:
  "1 < length [hit_bare_except, skipped_test]
   \<and> severity ([hit_bare_except, skipped_test] ! 1) = WARNING
   \<and> 0 \<le> confidence ([hit_bare_except, skipped_test] ! 1)
   \<and> security_risk (assess_impact [hit_bare_except, skipped_test]) = 34
   \<and> security_risk (assess_impact [hit_bare_except, skipped_test\<lparr>severity := CRITICAL\<rparr>]) = 39
   \<and> performance_cost (assess_impact [hit_bare_except, skipped_test])
         \<le> performance_cost (assess_impact [hit_bare_except, skipped_test\<lparr>severity := CRITICAL\<rparr>])
   \<and> maintainability_debt (assess_impact [hit_bare_except, skipped_test])
         \<le> maintainability_debt (assess_impact [hit_bare_except, skipped_test\<lparr>severity := CRITICAL\<rparr>])"
proof -
  have h1: "1 < length [hit_bare_except, skipped_test]" by simp
  have h2: "severity ([hit_bare_except, skipped_test] ! 1) = WARNING"
    by (simp add: skipped_test_sel)
  have h3: "0 \<le> confidence ([hit_bare_except, skipped_test] ! 1)"
    by (simp add: skipped_test_sel)
  have m: "security_risk (assess_impact [hit_bare_except, skipped_test])
             \<le> security_risk (assess_impact [hit_bare_except, skipped_test\<lparr>severity := CRITICAL\<rparr>])
         \<and> performance_cost (assess_impact [hit_bare_except, skipped_test])
             \<le> performance_cost (assess_impact [hit_bare_except, skipped_test\<lparr>severity := CRITICAL\<rparr>])
         \<and> maintainability_debt (assess_impact [hit_bare_except, skipped_test])
             \<le> maintainability_debt (assess_impact [hit_bare_except, skipped_test\<lparr>severity := CRITICAL\<rparr>])"
    using severity_monotone[OF h1 h2 h3] by simp
  have s1: "security_risk (assess_impact [hit_bare_except, skipped_test]) = 34"
    by (subst assess_impact_fields(2))
       (simp_all add: table_eval hit_bare_except_sel skipped_test_sel float_eval)
  have s2: "security_risk (assess_impact [hit_bare_except, skipped_test\<lparr>severity := CRITICAL\<rparr>]) = 39"
    by (subst assess_impact_fields(2))
       (simp_all add: table_eval hit_bare_except_sel skipped_test_sel float_eval)
  show ?thesis using h1 h2 h3 m s1 s2 by (simp only: simp_thms)
qed
end
